theory Spec2Isabelle
  imports Main "HOL-Library.Word" "HOL-Library.Char_ord" "HOL-Library.List_Lexorder"
    "HOL-Library.AList"
begin

unbundle bit_operations_syntax

section \<open>Shared constants and Python primitives (utils.py)\<close>

text \<open>
  \<^verbatim>\<open>DNA_DOMAIN = "ACGT"\<close> and \<^verbatim>\<open>WILDCARD_CODE = len(DNA_DOMAIN)\<close>.
  \<^verbatim>\<open>get_alphabet\<close> returns \<^verbatim>\<open>DNA_DOMAIN\<close> for every input, so every engine
  runs with \<^verbatim>\<open>domain_size = 4\<close>. Reads are the encoded sequences that
  \<^verbatim>\<open>read_file\<close> hands to the engines: strings over the digits 0..3.
\<close>

definition DNA_DOMAIN :: string where
  "DNA_DOMAIN = ''ACGT''"

definition WILDCARD_CODE :: int where
  "WILDCARD_CODE = int (length DNA_DOMAIN)"

definition domain_size :: nat where
  "domain_size = length DNA_DOMAIN"

datatype py_error = ValueError | IndexError | ZeroDivisionError

text \<open>\<^verbatim>\<open>c.isdigit()\<close> and \<^verbatim>\<open>int(c)\<close> on a one-character string: the decimal digits are
  accepted, every other character makes \<^verbatim>\<open>int\<close> raise ValueError.\<close>

definition isdigit :: "char \<Rightarrow> bool" where
  "isdigit c = (48 \<le> (of_char c :: nat) \<and> (of_char c :: nat) \<le> 57)"

definition int_of_char :: "char \<Rightarrow> int option" where
  "int_of_char c = (if isdigit c then Some (int (of_char c) - 48) else None)"

text \<open>\<^verbatim>\<open>str(n)\<close> on an integer: the decimal numeral.\<close>

definition digit_char :: "nat \<Rightarrow> char" where
  "digit_char n = ''0123456789'' ! n"

function str_nat :: "nat \<Rightarrow> string" where
  "str_nat n = (if n < 10 then [digit_char n] else str_nat (n div 10) @ [digit_char (n mod 10)])"
  by pat_completeness auto
termination
  by (relation "measure (\<lambda>n. n)") auto

declare str_nat.simps [simp del]

definition str_int :: "int \<Rightarrow> string" where
  "str_int i = (if i < 0 then CHR ''-'' # str_nat (nat (- i)) else str_nat (nat i))"

section \<open>Edit distance (utils.py)\<close>

text \<open>\<^verbatim>\<open>edist(s1, s2)\<close>: the table \<^verbatim>\<open>d\<close> is a list of rows, filled in place.\<close>

definition edist :: "string \<Rightarrow> string \<Rightarrow> int" where
  "edist s1 s2 =
     (let len1 = length s1; len2 = length s2;
          d0 = replicate (len1 + 1) (replicate (len2 + 1) (0 :: int));
          d1 = fold (\<lambda>i d. d[i := (d ! i)[0 := int i]]) [0..<len1 + 1] d0;
          d2 = fold (\<lambda>j d. d[0 := (d ! 0)[j := int j]]) [0..<len2 + 1] d1;
          d3 = fold (\<lambda>i d.
                   fold (\<lambda>j d'.
                       let cost = (if s1 ! (i - 1) = s2 ! (j - 1) then 0 else 1) in
                       d'[i := (d' ! i)[j := min (min (d' ! (i - 1) ! j + 1) (d' ! i ! (j - 1) + 1))
                                                 (d' ! (i - 1) ! (j - 1) + cost)]])
                     [1..<len2 + 1] d)
                 [1..<len1 + 1] d2
      in d3 ! len1 ! len2)"

section \<open>Bit-packed motifs (motif_data.py)\<close>

text \<open>
  \<^verbatim>\<open>Motif.data\<close> is a Python integer, unbounded. \<^verbatim>\<open>set_from_kmer\<close> runs
  \<^verbatim>\<open>for i in range(length)\<close>, or-ing \<^verbatim>\<open>(int(x[i]) & 0b11) << 2 * (length - 1 - i)\<close>
  into \<^verbatim>\<open>data\<close>; a character that is no digit raises ValueError.
\<close>

definition MAX_L :: nat where
  "MAX_L = 32"

definition set_from_kmer_step :: "string \<Rightarrow> nat \<Rightarrow> py_error + int \<Rightarrow> py_error + int" where
  "set_from_kmer_step x i acc =
     (case acc of
        Inl e \<Rightarrow> Inl e
      | Inr data \<Rightarrow>
          (case int_of_char (x ! i) of
             None \<Rightarrow> Inl ValueError
           | Some c \<Rightarrow>
               (let char_code = c AND 3;
                    j = length x - 1 - i;
                    p = 2 * j
                in Inr (data OR push_bit p char_code))))"

definition set_from_kmer :: "string \<Rightarrow> py_error + int" where
  "set_from_kmer x = fold (set_from_kmer_step x) [0..<length x] (Inr 0)"

text \<open>\<^verbatim>\<open>get_kmer(k)\<close>: raises ValueError when \<^verbatim>\<open>k > MAX_L\<close>, otherwise joins
  \<^verbatim>\<open>str((data >> 2 * (k - 1 - i)) & 0b11)\<close> for \<^verbatim>\<open>i\<close> in \<^verbatim>\<open>range(k)\<close>.\<close>

definition get_2bits :: "int \<Rightarrow> nat \<Rightarrow> int" where
  "get_2bits data p = drop_bit p data AND 3"

definition get_kmer :: "int \<Rightarrow> nat \<Rightarrow> py_error + string" where
  "get_kmer data k =
     (if k > MAX_L then Inl ValueError
      else Inr (concat (map (\<lambda>i. str_int (get_2bits data (2 * (k - 1 - i)))) [0..<k])))"

text \<open>An encoded string: every character is one of the alphabet codes 0..3.\<close>

definition is_code :: "char \<Rightarrow> bool" where
  "is_code c = (c \<in> set ''0123'')"

definition encoded :: "string \<Rightarrow> bool" where
  "encoded s = list_all is_code s"

text \<open>Proof-side reading of the loop of \<^verbatim>\<open>set_from_kmer\<close>: the value of \<^verbatim>\<open>data\<close> after
  the first \<open>m\<close> iterations, when every character read so far is a digit.\<close>

primrec packv :: "string \<Rightarrow> nat \<Rightarrow> int" where
  "packv x 0 = 0"
| "packv x (Suc m) =
     packv x m OR push_bit (2 * (length x - 1 - m)) (the (int_of_char (x ! m)) AND 3)"

section \<open>Engine V1: brute-force counting (ems1.py)\<close>

text \<open>
  \<^verbatim>\<open>Ems1._generate_neighborhood(kmer, errors_remaining, length, current_motif_set)\<close>.
  The Python set is a list without duplicates, \<^verbatim>\<open>add\<close> is \<open>List.insert\<close>; the set is
  passed in and returned. \<^verbatim>\<open>main\<close> rejects \<^verbatim>\<open>d < 0\<close> and \<^verbatim>\<open>l <= 0\<close>, so the edit budget
  and the lengths are naturals; the comparisons that subtract are written over \<open>int\<close>
  as Python evaluates them.
\<close>

fun generate_neighborhood :: "string \<Rightarrow> nat \<Rightarrow> nat \<Rightarrow> string list \<Rightarrow> string list" where
  "generate_neighborhood kmer 0 len current_motif_set =
     (if length kmer = len then List.insert kmer current_motif_set else current_motif_set)"
| "generate_neighborhood kmer (Suc e) len current_motif_set =
     (let current_len = length kmer; errors_remaining = Suc e in
      if int current_len < int len - int errors_remaining
         \<or> int current_len > int len + int errors_remaining
      then current_motif_set
      else
        let s1 =
              (if current_len > 0 \<and> int current_len \<ge> int len - int errors_remaining + 1
               then fold (\<lambda>j s. generate_neighborhood (take j kmer @ drop (j + 1) kmer) e len s)
                      [0..<current_len] current_motif_set
               else current_motif_set);
            s2 =
              fold (\<lambda>j s.
                  let original_char = [kmer ! j] in
                  fold (\<lambda>k s'.
                      let new_char_code = str_int (int k) in
                      if new_char_code \<noteq> original_char
                      then generate_neighborhood
                             (take j kmer @ new_char_code @ drop (j + 1) kmer) e len s'
                      else s')
                    [0..<domain_size] s)
                [0..<current_len] s1;
            s3 =
              (if int current_len \<le> int len + int errors_remaining - 1
               then fold (\<lambda>j s.
                      fold (\<lambda>k s'.
                          let new_char_code = str_int (int k) in
                          generate_neighborhood (take j kmer @ new_char_code @ drop j kmer) e len s')
                        [0..<domain_size] s)
                      [0..<current_len + 1] s2
               else s2)
        in s3)"

text \<open>
  The state of \<^verbatim>\<open>Ems1\<close>: the two dictionaries, as association lists in insertion order
  (\<^verbatim>\<open>dict.get\<close> is \<open>map_of\<close>, assignment is \<open>AList.update\<close>).
\<close>

record ems1_state =
  motif_counts :: "(string \<times> int) list"
  last_seq_match :: "(string \<times> int) list"

definition ems1_init :: ems1_state where
  "ems1_init = \<lparr>motif_counts = [], last_seq_match = []\<rparr>"

text \<open>The candidates of one sequence: \<^verbatim>\<open>for q in range(-d, d + 1)\<close>, then every start index.\<close>

definition sequence_candidates :: "nat \<Rightarrow> nat \<Rightarrow> string \<Rightarrow> string list" where
  "sequence_candidates l d seq =
     fold (\<lambda>q cands.
         let k = int l + q in
         if k \<le> 0 \<or> k > int (length seq) then cands
         else fold (\<lambda>start_index cands'.
                  let kmer = take (nat k) (drop start_index seq) in
                  generate_neighborhood kmer d l cands')
                [0..<length seq - nat k + 1] cands)
       [- int d..int d] []"

text \<open>\<^verbatim>\<open>dict.get(key, default)\<close> on an association list.\<close>

definition dict_get :: "('k \<times> 'v) list \<Rightarrow> 'k \<Rightarrow> 'v \<Rightarrow> 'v" where
  "dict_get al k dflt = (case map_of al k of None \<Rightarrow> dflt | Some v \<Rightarrow> v)"

text \<open>One candidate of the folding loop at the end of a sequence.\<close>

definition count_candidate :: "int \<Rightarrow> string \<Rightarrow> ems1_state \<Rightarrow> ems1_state" where
  "count_candidate current_seq_id candidate_motif st =
     (if map_of (last_seq_match st) candidate_motif \<noteq> Some current_seq_id
      then st\<lparr>last_seq_match := AList.update candidate_motif current_seq_id (last_seq_match st),
              motif_counts := AList.update candidate_motif
                 (dict_get (motif_counts st) candidate_motif 0 + 1)
                 (motif_counts st)\<rparr>
      else st)"

text \<open>The body of \<^verbatim>\<open>for i, seq in enumerate(self.reads)\<close>, given the candidates of the
  sequence in the order the set yields them.\<close>

definition fold_candidates :: "nat \<Rightarrow> string list \<Rightarrow> ems1_state \<Rightarrow> ems1_state" where
  "fold_candidates i cands st = fold (count_candidate (int i + 1)) cands st"

definition Ems1_process :: "nat \<Rightarrow> nat \<Rightarrow> nat \<Rightarrow> string \<Rightarrow> ems1_state \<Rightarrow> ems1_state" where
  "Ems1_process l d i seq st = fold_candidates i (sequence_candidates l d seq) st"

text \<open>\<^verbatim>\<open>enumerate(self.reads)\<close> from index \<open>i\<close> on.\<close>

fun Ems1_loop :: "nat \<Rightarrow> nat \<Rightarrow> nat \<Rightarrow> string list \<Rightarrow> ems1_state \<Rightarrow> ems1_state" where
  "Ems1_loop l d i [] st = st"
| "Ems1_loop l d i (seq # reads) st = Ems1_loop l d (i + 1) reads (Ems1_process l d i seq st)"

definition Ems1_output :: "nat \<Rightarrow> ems1_state \<Rightarrow> string list" where
  "Ems1_output n_reads st =
     sort (map fst (filter (\<lambda>(motif_encoded, count). count = int n_reads) (motif_counts st)))"

definition Ems1_search :: "nat \<Rightarrow> nat \<Rightarrow> string list \<Rightarrow> string list" where
  "Ems1_search l d reads = Ems1_output (length reads) (Ems1_loop l d 0 reads ems1_init)"

section \<open>Loops that may raise\<close>

text \<open>A \<^verbatim>\<open>for\<close> loop whose body may raise: the first error ends the loop.\<close>

fun foldM :: "('a \<Rightarrow> 's \<Rightarrow> py_error + 's) \<Rightarrow> 'a list \<Rightarrow> 's \<Rightarrow> py_error + 's" where
  "foldM f [] s = Inr s"
| "foldM f (x # xs) s = (case f x s of Inl e \<Rightarrow> Inl e | Inr s' \<Rightarrow> foldM f xs s')"

lemma foldM_cong [fundef_cong]:
  "xs = ys \<Longrightarrow> s = t \<Longrightarrow> (\<And>x s'. x \<in> set ys \<Longrightarrow> f x s' = g x s')
   \<Longrightarrow> foldM f xs s = foldM g ys t"
  by (induction ys arbitrary: xs s t) (auto split: sum.splits)

section \<open>Motif trees (motif_tree.py)\<close>

text \<open>\<^verbatim>\<open>self.mask = (1 << self.domain_size) - 1\<close>; a bit test \<^verbatim>\<open>info & (1 << j)\<close> is true when
  the result is not zero.\<close>

definition tree_mask :: int where
  "tree_mask = push_bit domain_size 1 - 1"

definition has_bit :: "int \<Rightarrow> nat \<Rightarrow> bool" where
  "has_bit info j = (info AND push_bit j 1 \<noteq> 0)"

text \<open>\<^verbatim>\<open>ch = int(motif[depth]) if motif[depth].isdigit() else WILDCARD_CODE\<close>.\<close>

definition motif_ch :: "string \<Rightarrow> nat \<Rightarrow> int" where
  "motif_ch motif depth =
     (case int_of_char (motif ! depth) of Some v \<Rightarrow> v | None \<Rightarrow> WILDCARD_CODE)"

subsection \<open>MotifTreeFast\<close>

text \<open>
  The nodes of a fast tree are Python dictionaries that several child slots may share, and
  insertion and intersection mutate them in place. The model keeps them in a store: a node
  is an address into the list \<open>f_heap\<close>, \<^verbatim>\<open>allocate_node_fast()\<close> appends a node. A tree never
  points into another tree (intersection only links nodes of \<^verbatim>\<open>self\<close> and fresh nodes), so
  every tree has its own store.
\<close>

record fnode =
  children :: "nat option list"
  sharing_info :: int

record ftree =
  f_heap :: "fnode list"
  f_root :: nat
  f_max_depth :: nat

definition allocate_node_fast :: fnode where
  "allocate_node_fast = \<lparr>children = replicate (length DNA_DOMAIN) None, sharing_info = 0\<rparr>"

definition set_sharing_info :: "nat \<Rightarrow> int \<Rightarrow> fnode list \<Rightarrow> fnode list" where
  "set_sharing_info a v h = h[a := (h ! a)\<lparr>sharing_info := v\<rparr>]"

definition set_child :: "nat \<Rightarrow> nat \<Rightarrow> nat option \<Rightarrow> fnode list \<Rightarrow> fnode list" where
  "set_child a j c h = h[a := (h ! a)\<lparr>children := (children (h ! a))[j := c]\<rparr>]"

definition MotifTreeFast :: "nat \<Rightarrow> ftree" where
  "MotifTreeFast max_depth = \<lparr>f_heap = [allocate_node_fast], f_root = 0, f_max_depth = max_depth\<rparr>"

definition empty_node :: "fnode \<Rightarrow> bool" where
  "empty_node node = list_all (\<lambda>child. child = None) (children node)"

function insert_recursive_fast :: "nat \<Rightarrow> string \<Rightarrow> nat \<Rightarrow> nat \<Rightarrow> fnode list \<Rightarrow> fnode list" where
  "insert_recursive_fast md motif node depth h =
     (if depth \<ge> md then h
      else
        let ch = motif_ch motif depth in
        if ch = WILDCARD_CODE then
          (let (h1, current_info) =
                 fold (\<lambda>j (h', ci).
                     (case children (h' ! node) ! j of
                        None \<Rightarrow> (h', ci)
                      | Some child_node \<Rightarrow>
                          if \<not> has_bit ci j
                          then (let h'' = insert_recursive_fast md motif child_node (depth + 1) h'
                                in (h'', ci OR sharing_info (h'' ! child_node)))
                          else (h', ci)))
                   [0..<domain_size] (h, 0);
               remaining = (NOT current_info) AND tree_mask
           in if remaining \<noteq> 0 then
                (let new_node = length h1;
                     h2 = h1 @ [allocate_node_fast];
                     h3 = set_sharing_info new_node remaining h2;
                     h4 = fold (\<lambda>j h'. if has_bit remaining j
                                         then set_child node j (Some new_node) h' else h')
                            [0..<domain_size] h3
                 in insert_recursive_fast md motif new_node (depth + 1) h4)
              else h1)
        else
          (let child_mask = push_bit (nat ch) 1 in
           case children (h ! node) ! nat ch of
             None \<Rightarrow>
               (let new_node = length h;
                    h2 = h @ [allocate_node_fast];
                    h3 = set_sharing_info new_node child_mask h2;
                    h4 = set_child node (nat ch) (Some new_node) h3
                in insert_recursive_fast md motif new_node (depth + 1) h4)
           | Some child_node \<Rightarrow>
               (let old_info = sharing_info (h ! child_node) in
                if old_info AND NOT child_mask \<noteq> 0 then
                  (let old_node = child_node;
                       new_node = length h;
                       h2 = h @ [allocate_node_fast];
                       h3 = set_sharing_info new_node child_mask h2;
                       h4 = set_sharing_info old_node
                              (sharing_info (h3 ! old_node) AND NOT child_mask) h3;
                       h5 = set_child node (nat ch) (Some new_node) h4
                   in insert_recursive_fast md motif new_node (depth + 1) h5)
                else insert_recursive_fast md motif child_node (depth + 1) h)))"
  by pat_completeness auto
termination
  by (relation "measure (\<lambda>(md, motif, node, depth, h). md - depth)") auto

text \<open>
  \<^verbatim>\<open>insert(motif)\<close>. Python raises IndexError at \<^verbatim>\<open>motif[depth]\<close> when the motif is shorter
  than \<^verbatim>\<open>max_depth\<close>, and at \<^verbatim>\<open>node['children'][ch]\<close> when a digit above the wildcard code
  is read; every position below \<^verbatim>\<open>max_depth\<close> is read, since each level recurses at least
  once.
\<close>

definition fast_motif_ok :: "nat \<Rightarrow> string \<Rightarrow> bool" where
  "fast_motif_ok md motif =
     (md \<le> length motif \<and> list_all (\<lambda>i. motif_ch motif i \<le> WILDCARD_CODE) [0..<md])"

definition insert_fast :: "string \<Rightarrow> ftree \<Rightarrow> py_error + ftree" where
  "insert_fast motif t =
     (if fast_motif_ok (f_max_depth t) motif
      then Inr (t\<lparr>f_heap := insert_recursive_fast (f_max_depth t) motif (f_root t) 0 (f_heap t)\<rparr>)
      else Inl IndexError)"

text \<open>\<^verbatim>\<open>intersect_recursive(to_node, from_node, depth)\<close>: \<open>hf\<close> is the store of the other tree,
  which is only read; the result is the returned node (or \<^verbatim>\<open>None\<close>) and the store of
  \<^verbatim>\<open>self\<close>.\<close>

function intersect_recursive_fast ::
  "nat \<Rightarrow> fnode list \<Rightarrow> nat \<Rightarrow> nat option \<Rightarrow> nat \<Rightarrow> fnode list \<Rightarrow> nat option \<times> fnode list" where
  "intersect_recursive_fast md hf to_node from_node depth h =
     (if depth \<ge> md then (Some to_node, h)
      else case from_node of
        None \<Rightarrow> (None, h)
      | Some from_n \<Rightarrow>
          (let new_to_node = length h;
               h0 = h @ [allocate_node_fast];
               h1 = fold (\<lambda>j h'.
                      (case children (h' ! to_node) ! j of
                         None \<Rightarrow> h'
                       | Some to_child_original \<Rightarrow>
                           (let from_child_original = children (hf ! from_n) ! j;
                                to_info_original = sharing_info (h' ! to_child_original);
                                from_info = (case from_child_original of
                                               None \<Rightarrow> 0 | Some fc \<Rightarrow> sharing_info (hf ! fc));
                                common = to_info_original AND from_info
                            in if common \<noteq> 0 then
                                 (case intersect_recursive_fast md hf to_child_original
                                         from_child_original (depth + 1) h' of
                                    (None, h'') \<Rightarrow> h''
                                  | (Some intersected_child, h'') \<Rightarrow>
                                      fold (\<lambda>k h3.
                                          if has_bit common k
                                          then (let h4 = set_child new_to_node k
                                                           (Some intersected_child) h3
                                                in set_sharing_info new_to_node
                                                     (sharing_info (h4 ! new_to_node) OR push_bit k 1) h4)
                                          else h3)
                                        [0..<domain_size]
                                        (set_sharing_info intersected_child common h''))
                               else h')))
                      [0..<domain_size] h0
           in if empty_node (h1 ! new_to_node) \<and> depth < md then (None, h1)
              else (Some new_to_node, h1)))"
  by pat_completeness auto
termination
  by (relation "measure (\<lambda>(md, hf, to_node, from_node, depth, h). md - depth)") auto

text \<open>\<^verbatim>\<open>intersect(other)\<close>: \<^verbatim>\<open>self.root = new_root if new_root else self.node_allocator()\<close>.\<close>

definition intersect_fast :: "ftree \<Rightarrow> ftree \<Rightarrow> ftree" where
  "intersect_fast t other =
     (case intersect_recursive_fast (f_max_depth t) (f_heap other) (f_root t)
             (Some (f_root other)) 0 (f_heap t) of
        (Some new_root, h) \<Rightarrow> t\<lparr>f_heap := h, f_root := new_root\<rparr>
      | (None, h) \<Rightarrow> t\<lparr>f_heap := h @ [allocate_node_fast], f_root := length h\<rparr>)"

text \<open>
  \<^verbatim>\<open>traverse_recursive(node, depth)\<close> with the buffer \<^verbatim>\<open>self.x\<close> and the list \<^verbatim>\<open>self.motifs\<close>
  as state. \<^verbatim>\<open>traverse\<close> starts at depth 0 and the depth grows by one, so the test
  \<^verbatim>\<open>depth == max_depth\<close> is met exactly when \<open>depth \<ge> max_depth\<close> first holds.
\<close>

function traverse_recursive_fast ::
  "nat \<Rightarrow> fnode list \<Rightarrow> nat \<Rightarrow> nat \<Rightarrow> string list \<times> string list \<Rightarrow> string list \<times> string list" where
  "traverse_recursive_fast md h node depth st =
     (if depth \<ge> md then (fst st, snd st @ [concat (fst st)])
      else fold (\<lambda>i st'.
             (case children (h ! node) ! i of
                None \<Rightarrow> st'
              | Some child_node \<Rightarrow>
                  traverse_recursive_fast md h child_node (depth + 1)
                    ((fst st')[depth := str_int (int i)], snd st')))
             [0..<domain_size] st)"
  by pat_completeness auto
termination
  by (relation "measure (\<lambda>(md, h, node, depth, st). md - depth)") auto

definition traverse_fast :: "ftree \<Rightarrow> string list" where
  "traverse_fast t =
     snd (traverse_recursive_fast (f_max_depth t) (f_heap t) (f_root t) 0
            (replicate (f_max_depth t) [], []))"

text \<open>The test \<^verbatim>\<open>not self.main_tree.root['children']\<close> of \<^verbatim>\<open>Ems2.search\<close>: a Python list is
  false exactly when it is empty.\<close>

definition root_children_falsy_fast :: "ftree \<Rightarrow> bool" where
  "root_children_falsy_fast t = (children (f_heap t ! f_root t) = [])"

subsection \<open>MotifTreeSimple\<close>

text \<open>
  The nodes of a simple tree own their children lists; the only sharing is of the empty
  children lists of leaves, which are never written. The tree is a value.
\<close>

datatype snode = SNode (s_children: "snode list") (s_sharing_info: int)

definition allocate_node_slow :: snode where
  "allocate_node_slow = SNode [] 0"

record stree =
  s_root :: snode
  s_max_depth :: nat

definition MotifTreeSimple :: "nat \<Rightarrow> stree" where
  "MotifTreeSimple max_depth = \<lparr>s_root = allocate_node_slow, s_max_depth = max_depth\<rparr>"

text \<open>The search \<^verbatim>\<open>for child in node['children']: if child['sharing_info'] & target_info: ... break\<close>:
  the index of the first child that overlaps.\<close>

fun found_child :: "int \<Rightarrow> snode list \<Rightarrow> nat option" where
  "found_child target_info [] = None"
| "found_child target_info (child # rest) =
     (if s_sharing_info child AND target_info \<noteq> 0 then Some 0
      else map_option Suc (found_child target_info rest))"

function insert_recursive_simple :: "nat \<Rightarrow> string \<Rightarrow> snode \<Rightarrow> nat \<Rightarrow> snode" where
  "insert_recursive_simple md motif node depth =
     (if depth \<ge> md then node
      else
        let ch = motif_ch motif depth;
            target_info = (if ch = WILDCARD_CODE then tree_mask else push_bit (nat ch) 1)
        in case found_child target_info (s_children node) of
             Some i \<Rightarrow>
               SNode ((s_children node)
                        [i := insert_recursive_simple md motif (s_children node ! i) (depth + 1)])
                     (s_sharing_info node)
           | None \<Rightarrow>
               SNode (s_children node
                        @ [insert_recursive_simple md motif (SNode [] target_info) (depth + 1)])
                     (s_sharing_info node))"
  by pat_completeness auto
termination
  by (relation "measure (\<lambda>(md, motif, node, depth). md - depth)") auto

definition insert_simple :: "string \<Rightarrow> stree \<Rightarrow> py_error + stree" where
  "insert_simple motif t =
     (if s_max_depth t \<le> length motif
      then Inr (t\<lparr>s_root := insert_recursive_simple (s_max_depth t) motif (s_root t) 0\<rparr>)
      else Inl IndexError)"

function intersect_recursive_simple :: "nat \<Rightarrow> snode \<Rightarrow> snode \<Rightarrow> nat \<Rightarrow> snode option" where
  "intersect_recursive_simple md to_node from_node depth =
     (if depth \<ge> md then Some to_node
      else if s_children from_node = [] then None
      else
        let new_children =
              concat (map (\<lambda>to_child.
                  concat (map (\<lambda>from_child.
                      let common = s_sharing_info to_child AND s_sharing_info from_child in
                      if common \<noteq> 0 then
                        (case intersect_recursive_simple md to_child from_child (depth + 1) of
                           None \<Rightarrow> []
                         | Some intersected_child \<Rightarrow> [SNode (s_children intersected_child) common])
                      else [])
                    (s_children from_node)))
                (s_children to_node))
        in if new_children = [] \<and> depth < md then None
           else Some (SNode new_children 0))"
  by pat_completeness auto
termination
  by (relation "measure (\<lambda>(md, to_node, from_node, depth). md - depth)") auto

declare intersect_recursive_simple.simps [simp del]

definition intersect_simple :: "stree \<Rightarrow> stree \<Rightarrow> stree" where
  "intersect_simple t other =
     (case intersect_recursive_simple (s_max_depth t) (s_root t) (s_root other) 0 of
        Some new_root \<Rightarrow> t\<lparr>s_root := new_root\<rparr>
      | None \<Rightarrow> t\<lparr>s_root := allocate_node_slow\<rparr>)"

text \<open>\<^verbatim>\<open>children_map\<close>: for every child in order and every letter of its mask, the letter is
  mapped to the child; a later child replaces an earlier one.\<close>

definition children_map :: "snode list \<Rightarrow> snode option list" where
  "children_map cs =
     fold (\<lambda>child cm.
         fold (\<lambda>j cm'. if has_bit (s_sharing_info child) j then cm'[j := Some child] else cm')
           [0..<domain_size] cm)
       cs (replicate domain_size None)"

function traverse_recursive_simple ::
  "nat \<Rightarrow> snode \<Rightarrow> nat \<Rightarrow> string list \<times> string list \<Rightarrow> string list \<times> string list" where
  "traverse_recursive_simple md node depth st =
     (if depth \<ge> md then (fst st, snd st @ [concat (fst st)])
      else fold (\<lambda>i st'.
             (case children_map (s_children node) ! i of
                None \<Rightarrow> st'
              | Some child_node \<Rightarrow>
                  traverse_recursive_simple md child_node (depth + 1)
                    ((fst st')[depth := str_int (int i)], snd st')))
             [0..<domain_size] st)"
  by pat_completeness auto
termination
  by (relation "measure (\<lambda>(md, node, depth, st). md - depth)") auto

definition traverse_simple :: "stree \<Rightarrow> string list" where
  "traverse_simple t =
     snd (traverse_recursive_simple (s_max_depth t) (s_root t) 0
            (replicate (s_max_depth t) [], []))"

definition root_children_falsy_simple :: "stree \<Rightarrow> bool" where
  "root_children_falsy_simple t = (s_children (s_root t) = [])"

section \<open>The set of strings a tree represents\<close>

text \<open>
  The reading of a tree as a set of strings: the union, over the paths of \<open>n\<close> edges from a
  node, of the products of the letters in the sharing masks of the edges' children. For a
  fast tree the children of a node are the distinct nodes its slots point to.
\<close>

definition mask_letters :: "int \<Rightarrow> string" where
  "mask_letters info =
     concat (map (\<lambda>j. if has_bit info j then str_int (int j) else []) [0..<domain_size])"

fun represented_simple :: "nat \<Rightarrow> snode \<Rightarrow> string list" where
  "represented_simple 0 node = [[]]"
| "represented_simple (Suc n) node =
     concat (map (\<lambda>child.
         concat (map (\<lambda>c. map (\<lambda>s. c # s) (represented_simple n child))
                   (mask_letters (s_sharing_info child))))
       (s_children node))"

text \<open>The strings that start with an edge to \<open>child\<close>: a letter of its mask, then a
  string below it.\<close>

definition edge_strings :: "nat \<Rightarrow> snode \<Rightarrow> string set" where
  "edge_strings n child =
     (\<lambda>(c, s). c # s) `
       (set (mask_letters (s_sharing_info child)) \<times> set (represented_simple n child))"

definition distinct_children :: "fnode \<Rightarrow> nat list" where
  "distinct_children node =
     remdups (concat (map (\<lambda>slot. case slot of None \<Rightarrow> [] | Some a \<Rightarrow> [a]) (children node)))"

fun represented_fast :: "fnode list \<Rightarrow> nat \<Rightarrow> nat \<Rightarrow> string list" where
  "represented_fast h 0 node = [[]]"
| "represented_fast h (Suc n) node =
     concat (map (\<lambda>child.
         concat (map (\<lambda>c. map (\<lambda>s. c # s) (represented_fast h n child))
                   (mask_letters (sharing_info (h ! child)))))
       (distinct_children (h ! node)))"

definition strings_of_stree :: "stree \<Rightarrow> string set" where
  "strings_of_stree t = set (represented_simple (s_max_depth t) (s_root t))"

definition strings_of_ftree :: "ftree \<Rightarrow> string set" where
  "strings_of_ftree t = set (represented_fast (f_heap t) (f_max_depth t) (f_root t))"

text \<open>The concrete strings of a motif: a wildcard position stands for every letter.\<close>

fun concretizations :: "string \<Rightarrow> string list" where
  "concretizations [] = [[]]"
| "concretizations (c # cs) =
     (if int_of_char c = Some WILDCARD_CODE \<or> int_of_char c = None
      then concat (map (\<lambda>a. map (\<lambda>s. a # s) (concretizations cs)) (mask_letters tree_mask))
      else map (\<lambda>s. c # s) (concretizations cs))"

section \<open>Engine V2: trie intersection (ems2.py)\<close>

text \<open>\<^verbatim>\<open>TREE_MAP\<close>: the tree class of an engine, as the record of the operations
  \<^verbatim>\<open>Ems2\<close> calls.\<close>

record 't TreeClass =
  new_tree :: "nat \<Rightarrow> 't"
  tree_insert :: "string \<Rightarrow> 't \<Rightarrow> py_error + 't"
  tree_intersect :: "'t \<Rightarrow> 't \<Rightarrow> 't"
  root_children_falsy :: "'t \<Rightarrow> bool"
  tree_traverse :: "'t \<Rightarrow> string list"

definition TreeFast :: "ftree TreeClass" where
  "TreeFast = \<lparr>new_tree = MotifTreeFast, tree_insert = insert_fast,
     tree_intersect = intersect_fast, root_children_falsy = root_children_falsy_fast,
     tree_traverse = traverse_fast\<rparr>"

definition TreeSimple :: "stree TreeClass" where
  "TreeSimple = \<lparr>new_tree = MotifTreeSimple, tree_insert = insert_simple,
     tree_intersect = intersect_simple, root_children_falsy = root_children_falsy_simple,
     tree_traverse = traverse_simple\<rparr>"

definition l_target :: string where
  "l_target = str_int WILDCARD_CODE"

text \<open>
  The three recursions of \<^verbatim>\<open>Ems2\<close>. Each reads \<^verbatim>\<open>self.kmer\<close> once, on entry, into
  \<^verbatim>\<open>current_kmer\<close>, and every loop iteration assigns \<^verbatim>\<open>self.kmer\<close> from \<^verbatim>\<open>current_kmer\<close>
  before it recurses; \<^verbatim>\<open>_gen_all\<close> assigns it before every call. So the k-mer is an
  argument, and the value left in \<^verbatim>\<open>self.kmer\<close> on return is never read.
\<close>

fun Ems2_gen_nbrhood_3 ::
  "(string \<Rightarrow> 't \<Rightarrow> py_error + 't) \<Rightarrow> nat \<Rightarrow> string \<Rightarrow> nat \<Rightarrow> 't \<Rightarrow> py_error + 't" where
  "Ems2_gen_nbrhood_3 ins l current_kmer 0 tree =
     (let t = filter (\<lambda>c. c \<noteq> CHR ''-'') current_kmer;
          t' = concat (map (\<lambda>c. if c = CHR ''*'' then l_target else [c]) t)
      in if length t' = l then ins t' tree else Inr tree)"
| "Ems2_gen_nbrhood_3 ins l current_kmer (Suc alpha) tree =
     foldM (\<lambda>j tr.
         if j < length current_kmer \<and> current_kmer ! j = CHR ''*'' then Inr tr
         else Ems2_gen_nbrhood_3 ins l (take j current_kmer @ ''*'' @ drop j current_kmer) alpha tr)
       [0..<length current_kmer + 1] tree"

fun Ems2_gen_nbrhood_2 ::
  "(string \<Rightarrow> 't \<Rightarrow> py_error + 't) \<Rightarrow> nat \<Rightarrow> string \<Rightarrow> nat \<Rightarrow> nat \<Rightarrow> 't \<Rightarrow> py_error + 't" where
  "Ems2_gen_nbrhood_2 ins l current_kmer 0 alpha tree =
     Ems2_gen_nbrhood_3 ins l current_kmer alpha tree"
| "Ems2_gen_nbrhood_2 ins l current_kmer (Suc sigma) alpha tree =
     foldM (\<lambda>j tr.
         if current_kmer ! j = CHR ''-'' then Inr tr
         else Ems2_gen_nbrhood_2 ins l
                (take j current_kmer @ ''*'' @ drop (j + 1) current_kmer) sigma alpha tr)
       [0..<length current_kmer] tree"

fun Ems2_gen_nbrhood ::
  "(string \<Rightarrow> 't \<Rightarrow> py_error + 't) \<Rightarrow> nat \<Rightarrow> string \<Rightarrow> nat \<Rightarrow> nat \<Rightarrow> nat \<Rightarrow> 't \<Rightarrow> py_error + 't" where
  "Ems2_gen_nbrhood ins l current_kmer 0 sigma alpha tree =
     Ems2_gen_nbrhood_2 ins l current_kmer sigma alpha tree"
| "Ems2_gen_nbrhood ins l current_kmer (Suc delta) sigma alpha tree =
     foldM (\<lambda>j tr.
         Ems2_gen_nbrhood ins l
           (take j current_kmer @ ''-'' @ drop (j + 1) current_kmer) delta sigma alpha tr)
       [0..<length current_kmer] tree"

text \<open>
  \<^verbatim>\<open>_gen_all\<close>. For \<open>q\<close> in \<open>-d..d\<close> and \<open>delta\<close> in \<open>max(0, q)..floor((d + q) / 2)\<close>,
  \<open>alpha = delta - q\<close> and \<open>sigma = d - alpha - delta\<close> are not negative, so they are passed
  on as naturals.
\<close>

definition Ems2_gen_all ::
  "(string \<Rightarrow> 't \<Rightarrow> py_error + 't) \<Rightarrow> nat \<Rightarrow> nat \<Rightarrow> string \<Rightarrow> 't \<Rightarrow> py_error + 't" where
  "Ems2_gen_all ins l d seq tree =
     (let m = length seq in
      foldM (\<lambda>q tr.
          let k = int l + q in
          if k \<le> 0 \<or> k > int m then Inr tr
          else foldM (\<lambda>delta tr'.
                   let alpha = delta - q;
                       sigma = int d - alpha - delta
                   in foldM (\<lambda>i tr''.
                          Ems2_gen_nbrhood ins l (take (nat k) (drop i seq))
                            (nat delta) (nat sigma) (nat alpha) tr'')
                        [0..<m - nat k + 1] tr')
                 [max 0 q..(int d + q) div 2] tr)
        [- int d..int d] tree)"

text \<open>
  \<^verbatim>\<open>Ems2.search\<close>. The result is the list of the sequence indices printed by
  \<^verbatim>\<open>print(f"Processing sequence {i}...")\<close>, in order, and \<^verbatim>\<open>self.motifs\<close>.
\<close>

fun Ems2_loop ::
  "'t TreeClass \<Rightarrow> nat \<Rightarrow> nat \<Rightarrow> nat \<Rightarrow> string list \<Rightarrow> nat list \<Rightarrow> 't
   \<Rightarrow> py_error + nat list \<times> string list" where
  "Ems2_loop tc l d i [] processed main_tree =
     Inr (processed, sort (tree_traverse tc main_tree))"
| "Ems2_loop tc l d i (seq # rest) processed main_tree =
     (case Ems2_gen_all (tree_insert tc) l d seq (new_tree tc l) of
        Inl e \<Rightarrow> Inl e
      | Inr tmp_tree \<Rightarrow>
          (let main_tree' = tree_intersect tc main_tree tmp_tree in
           if root_children_falsy tc main_tree' then Inr (processed @ [i], [])
           else Ems2_loop tc l d (i + 1) rest (processed @ [i]) main_tree'))"

definition Ems2_search ::
  "'t TreeClass \<Rightarrow> nat \<Rightarrow> nat \<Rightarrow> string list \<Rightarrow> py_error + nat list \<times> string list" where
  "Ems2_search tc l d reads =
     (case reads of
        [] \<Rightarrow> Inr ([], [])
      | seq0 # rest \<Rightarrow>
          (case Ems2_gen_all (tree_insert tc) l d seq0 (new_tree tc l) of
             Inl e \<Rightarrow> Inl e
           | Inr main_tree \<Rightarrow> Ems2_loop tc l d 1 rest [0] main_tree))"

section \<open>Engine V2P: packed keys, sorted and merged (ems2p.py)\<close>

text \<open>\<^verbatim>\<open>Auxif.set_from_kmer(x, wildcard_code)\<close>: one bit per character, set where the
  character is the wildcard code.\<close>

definition Auxif_set_from_kmer :: "string \<Rightarrow> int \<Rightarrow> py_error + int" where
  "Auxif_set_from_kmer s wildcard_code =
     foldM (\<lambda>i data.
         (case int_of_char (s ! i) of
            None \<Rightarrow> Inl ValueError
          | Some char_code \<Rightarrow>
              (let j = length s - 1 - i; p = j in
               if char_code = wildcard_code then Inr (data OR push_bit p 1) else Inr data)))
       [0..<length s] 0"

text \<open>
  The state of an \<^verbatim>\<open>NbdGenerator\<close>: the scratch string \<^verbatim>\<open>self.x\<close>, the length \<^verbatim>\<open>self.k\<close> taken
  at construction, the two output arrays (shared by the generators of one segment) and
  \<^verbatim>\<open>expanded_count\<close>. A \<^verbatim>\<open>Motif\<close> is its integer \<^verbatim>\<open>data\<close>.
\<close>

record nbd_state =
  nbd_x :: string
  nbd_k :: nat
  curr_array :: "int list"
  curr_aux_array :: "int list"
  expanded_count :: int

definition NbdGenerator :: "int list \<Rightarrow> int list \<Rightarrow> string \<Rightarrow> nbd_state" where
  "NbdGenerator arr aux s =
     \<lparr>nbd_x = s, nbd_k = length s, curr_array = arr, curr_aux_array = aux, expanded_count = 0\<rparr>"

fun Nbd_gen_nbrhood_3 :: "nat \<Rightarrow> nat \<Rightarrow> int \<Rightarrow> nbd_state \<Rightarrow> py_error + nbd_state" where
  "Nbd_gen_nbrhood_3 l 0 count st =
     (let current_len = length (nbd_x st) in
      if current_len = l then
        (let motif_encoded_str = filter (\<lambda>c. c \<noteq> CHR ''-'') (nbd_x st) in
         if length motif_encoded_str = l then
           (case set_from_kmer motif_encoded_str of
              Inl e \<Rightarrow> Inl e
            | Inr motif \<Rightarrow>
                (case Auxif_set_from_kmer motif_encoded_str WILDCARD_CODE of
                   Inl e \<Rightarrow> Inl e
                 | Inr auxif \<Rightarrow>
                     Inr (st\<lparr>curr_array := curr_array st @ [motif],
                             curr_aux_array := curr_aux_array st @ [auxif],
                             expanded_count := expanded_count st + count\<rparr>)))
         else Inr st)
      else Inr st)"
| "Nbd_gen_nbrhood_3 l (Suc alpha) count st =
     (let current_len = length (nbd_x st) in
      foldM (\<lambda>j st'.
          let temp_x = take j (nbd_x st') @ str_int WILDCARD_CODE @ drop j (nbd_x st');
              old_x = nbd_x st'
          in case Nbd_gen_nbrhood_3 l alpha (count * int domain_size) (st'\<lparr>nbd_x := temp_x\<rparr>) of
               Inl e \<Rightarrow> Inl e
             | Inr st'' \<Rightarrow> Inr (st''\<lparr>nbd_x := old_x\<rparr>))
        [0..<current_len + 1] st)"

fun Nbd_gen_nbrhood_2 :: "nat \<Rightarrow> nat \<Rightarrow> nat \<Rightarrow> int \<Rightarrow> nbd_state \<Rightarrow> py_error + nbd_state" where
  "Nbd_gen_nbrhood_2 l 0 alpha count st = Nbd_gen_nbrhood_3 l alpha count st"
| "Nbd_gen_nbrhood_2 l (Suc sigma) alpha count st =
     (let current_len = length (nbd_x st) in
      foldM (\<lambda>j st'.
          if nbd_x st' ! j = CHR ''-'' then Inr st'
          else
            let old_x = nbd_x st';
                new_x = take j old_x @ str_int WILDCARD_CODE @ drop (j + 1) old_x
            in case Nbd_gen_nbrhood_2 l sigma alpha (count * int domain_size)
                      (st'\<lparr>nbd_x := new_x\<rparr>) of
                 Inl e \<Rightarrow> Inl e
               | Inr st'' \<Rightarrow> Inr (st''\<lparr>nbd_x := old_x\<rparr>))
        [0..<current_len] st)"

text \<open>The deletion loop restores \<^verbatim>\<open>self.x\<close> with
  \<^verbatim>\<open>old_x[:j] + original_char + old_x[j:]\<close>, where \<^verbatim>\<open>old_x\<close> is the string before the
  deletion; the string the next iteration reads is the one this assignment leaves.\<close>

fun Nbd_gen_nbrhood ::
  "nat \<Rightarrow> nat \<Rightarrow> nat \<Rightarrow> nat \<Rightarrow> int \<Rightarrow> nbd_state \<Rightarrow> py_error + nbd_state" where
  "Nbd_gen_nbrhood l 0 sigma alpha count st = Nbd_gen_nbrhood_2 l sigma alpha count st"
| "Nbd_gen_nbrhood l (Suc delta) sigma alpha count st =
     (let current_len = length (nbd_x st) in
      foldM (\<lambda>j st'.
          let original_char = [nbd_x st' ! j];
              old_x = nbd_x st';
              new_x = take j old_x @ drop (j + 1) old_x
          in case Nbd_gen_nbrhood l delta sigma alpha count (st'\<lparr>nbd_x := new_x\<rparr>) of
               Inl e \<Rightarrow> Inl e
             | Inr st'' \<Rightarrow> Inr (st''\<lparr>nbd_x := take j old_x @ original_char @ drop j old_x\<rparr>))
        [0..<current_len] st)"

text \<open>\<^verbatim>\<open>generate()\<close>: the state after the call; the returned value is its
  \<^verbatim>\<open>expanded_count\<close>.\<close>

definition Nbd_generate :: "nat \<Rightarrow> nat \<Rightarrow> nbd_state \<Rightarrow> py_error + nbd_state" where
  "Nbd_generate l d st =
     (let q = int (nbd_k st) - int l in
      foldM (\<lambda>delta st'.
          let alpha = delta - q;
              sigma = int d - alpha - delta
          in Nbd_gen_nbrhood l (nat delta) (nat sigma) (nat alpha) 1 st')
        [max 0 q..(int d + q) div 2] (st\<lparr>expanded_count := 0\<rparr>))"

text \<open>\<^verbatim>\<open>_radix_sort_and_intersect\<close>: sort, drop adjacent duplicates, then the two-pointer
  intersection with the running result.\<close>

definition remove_duplicates :: "int list \<Rightarrow> int list" where
  "remove_duplicates combined_data =
     fst (fold (\<lambda>motif_obj (sorted_motifs, last_motif_data).
            if motif_obj \<noteq> last_motif_data then (sorted_motifs @ [motif_obj], motif_obj)
            else (sorted_motifs, last_motif_data))
          combined_data ([], - 1))"

fun intersect_loop :: "int list \<Rightarrow> int list \<Rightarrow> int list \<Rightarrow> int list" where
  "intersect_loop (main_motif # main_rest) (sorted_motif # sorted_rest) result_motifs =
     (if main_motif < sorted_motif
      then intersect_loop main_rest (sorted_motif # sorted_rest) result_motifs
      else if main_motif > sorted_motif
      then intersect_loop (main_motif # main_rest) sorted_rest result_motifs
      else intersect_loop main_rest sorted_rest (result_motifs @ [main_motif]))"
| "intersect_loop main_array_data sorted_motifs result_motifs = result_motifs"

definition radix_sort_and_intersect :: "int list \<Rightarrow> int list \<Rightarrow> int list \<Rightarrow> nat \<Rightarrow> int list" where
  "radix_sort_and_intersect main_array_data arr aux compact_count =
     (let combined_data = sort (take compact_count arr);
          sorted_motifs = remove_duplicates combined_data
      in if main_array_data = [] then sorted_motifs
         else intersect_loop main_array_data sorted_motifs [])"

text \<open>
  \<^verbatim>\<open>Worker\<close>: the work list holds every pair \<open>(i, k)\<close>, then \<^verbatim>\<open>random.seed(42)\<close> and
  \<^verbatim>\<open>random.shuffle\<close> permute it. The permutation is the library's; it is the parameter
  \<open>shuffle\<close> of the model.
\<close>

definition Worker_works :: "nat \<Rightarrow> nat \<Rightarrow> string \<Rightarrow> (nat \<times> nat) list" where
  "Worker_works l d seq =
     (let m = length seq in
      concat (map (\<lambda>k. if k > 0 \<and> k \<le> int m
                        then map (\<lambda>i. (i, nat k)) [0..<m - nat k + 1] else [])
                [int l - int d..int l + int d]))"

definition process_segment ::
  "nat \<Rightarrow> nat \<Rightarrow> string \<Rightarrow> int list \<Rightarrow> (nat \<times> nat) list \<Rightarrow> nat \<Rightarrow> nat \<Rightarrow> py_error + int list" where
  "process_segment l d seq main_array works start end =
     (case foldM (\<lambda>j (arr, aux).
              (case works ! j of (i, k) \<Rightarrow>
                 (let s = take k (drop i seq) in
                  case Nbd_generate l d (NbdGenerator arr aux s) of
                    Inl e \<Rightarrow> Inl e
                  | Inr st \<Rightarrow> Inr (curr_array st, curr_aux_array st))))
            [start..<end] ([], []) of
        Inl e \<Rightarrow> Inl e
      | Inr (arr, aux) \<Rightarrow>
          (let compact_count = length arr in
           Inr (radix_sort_and_intersect main_array arr aux compact_count)))"

text \<open>\<^verbatim>\<open>Ems2p._merge_motifs(a, b)\<close>: the union of two sorted lists, the loop over the two
  indices as a recursion over the two remaining suffixes.\<close>

definition append_unique :: "int list \<Rightarrow> int \<Rightarrow> int list" where
  "append_unique c motif_to_add = (if c = [] \<or> motif_to_add \<noteq> last c then c @ [motif_to_add] else c)"

fun merge_motifs_loop :: "int list \<Rightarrow> int list \<Rightarrow> int list \<Rightarrow> int list" where
  "merge_motifs_loop [] [] c = c"
| "merge_motifs_loop (a # as) [] c = merge_motifs_loop as [] (append_unique c a)"
| "merge_motifs_loop [] (b # bs) c = merge_motifs_loop [] bs (append_unique c b)"
| "merge_motifs_loop (a # as) (b # bs) c =
     (if a < b then merge_motifs_loop as (b # bs) (append_unique c a)
      else if b < a then merge_motifs_loop (a # as) bs (append_unique c b)
      else merge_motifs_loop as bs (append_unique c a))"

definition merge_motifs :: "int list \<Rightarrow> int list \<Rightarrow> int list" where
  "merge_motifs a b = merge_motifs_loop a b []"

text \<open>One round of the binary merging tree, and the rounds until one array is left.\<close>

fun merge_round :: "int list list \<Rightarrow> int list list" where
  "merge_round (a # b # rest) = merge_motifs a b # merge_round rest"
| "merge_round arrays = arrays"

lemma length_merge_round: "length (merge_round arrays) = (length arrays + 1) div 2"
  by (induction arrays rule: merge_round.induct) simp_all

function merge_tree :: "int list list \<Rightarrow> int list list" where
  "merge_tree current_arrays =
     (if length current_arrays > 1 then merge_tree (merge_round current_arrays)
      else current_arrays)"
  by pat_completeness auto
termination
  by (relation "measure length") (auto simp: length_merge_round)

text \<open>The tasks of \<^verbatim>\<open>_gen_all\<close>: \<^verbatim>\<open>num_threads\<close> contiguous slices of at most \<^verbatim>\<open>ind_load\<close>
  works, the empty ones left out.\<close>

definition make_tasks :: "nat \<Rightarrow> nat \<Rightarrow> nat \<Rightarrow> (nat \<times> nat) list" where
  "make_tasks num_threads ind_load total_load =
     snd (fold (\<lambda>_ (start, tasks).
            let pos = min (start + ind_load) total_load in
            (pos, if pos > start then tasks @ [(start, pos)] else tasks))
          [0..<num_threads] (0, []))"

fun mapM :: "('a \<Rightarrow> py_error + 'b) \<Rightarrow> 'a list \<Rightarrow> py_error + 'b list" where
  "mapM f [] = Inr []"
| "mapM f (a # as) =
     (case f a of
        Inl e \<Rightarrow> Inl e
      | Inr b \<Rightarrow> (case mapM f as of Inl e \<Rightarrow> Inl e | Inr bs \<Rightarrow> Inr (b # bs)))"

text \<open>
  \<^verbatim>\<open>Ems2p._gen_all(seq)\<close>: the new value of \<^verbatim>\<open>self.main_array\<close>. \<^verbatim>\<open>total_load / num_threads\<close>
  raises ZeroDivisionError for no thread, and \<^verbatim>\<open>mp.Pool\<close> raises ValueError for a negative
  number of processes. The pool runs the tasks and \<^verbatim>\<open>starmap\<close> returns their results in
  the order of the tasks; a task that raises makes the call raise.
\<close>

definition Ems2p_gen_all ::
  "((nat \<times> nat) list \<Rightarrow> (nat \<times> nat) list) \<Rightarrow> int \<Rightarrow> nat \<Rightarrow> nat \<Rightarrow> string \<Rightarrow> int list
   \<Rightarrow> py_error + int list" where
  "Ems2p_gen_all shuffle num_threads l d seq main_array =
     (let works = shuffle (Worker_works l d seq);
          total_load = length works
      in if num_threads = 0 then Inl ZeroDivisionError
         else
           let ind_load = nat (- ((- int total_load) div num_threads));
               tasks = make_tasks (nat num_threads) ind_load total_load
           in if num_threads < 0 then Inl ValueError
              else
                (case mapM (\<lambda>(start, end). process_segment l d seq main_array works start end)
                        tasks of
                   Inl e \<Rightarrow> Inl e
                 | Inr results \<Rightarrow>
                     (let current_arrays = merge_tree (filter (\<lambda>r. r \<noteq> []) results) in
                      if current_arrays \<noteq> [] then Inr (hd current_arrays)
                      else if main_array = [] then Inr []
                      else Inr main_array)))"

text \<open>
  \<^verbatim>\<open>Ems2p.search\<close>. The result is the list of the sequence indices printed by
  \<^verbatim>\<open>print(f"Processing sequence {i} (Parallel) ...")\<close> and \<^verbatim>\<open>self.motifs\<close>;
  \<^verbatim>\<open>get_kmer\<close> raises ValueError for a motif length above 32.
\<close>

fun Ems2p_loop ::
  "((nat \<times> nat) list \<Rightarrow> (nat \<times> nat) list) \<Rightarrow> int \<Rightarrow> nat \<Rightarrow> nat \<Rightarrow> nat \<Rightarrow> string list
   \<Rightarrow> nat list \<Rightarrow> int list \<Rightarrow> py_error + nat list \<times> string list" where
  "Ems2p_loop shuffle num_threads l d i [] processed main_array =
     (case mapM (\<lambda>m. get_kmer m l) main_array of
        Inl e \<Rightarrow> Inl e
      | Inr motifs \<Rightarrow> Inr (processed, sort motifs))"
| "Ems2p_loop shuffle num_threads l d i (seq # rest) processed main_array =
     (case Ems2p_gen_all shuffle num_threads l d seq main_array of
        Inl e \<Rightarrow> Inl e
      | Inr main_array' \<Rightarrow>
          if main_array' = [] then Inr (processed @ [i], [])
          else Ems2p_loop shuffle num_threads l d (i + 1) rest (processed @ [i]) main_array')"

definition Ems2p_search ::
  "((nat \<times> nat) list \<Rightarrow> (nat \<times> nat) list) \<Rightarrow> int \<Rightarrow> nat \<Rightarrow> nat \<Rightarrow> string list
   \<Rightarrow> py_error + nat list \<times> string list" where
  "Ems2p_search shuffle num_threads l d reads = Ems2p_loop shuffle num_threads l d 0 reads [] []"



section \<open>Verification: bit-packed motifs\<close>

lemma is_code_cases:
  "is_code c \<Longrightarrow> c = CHR ''0'' \<or> c = CHR ''1'' \<or> c = CHR ''2'' \<or> c = CHR ''3''"
  by (auto simp: is_code_def)

lemma is_code_int_of_char:
  assumes "is_code c"
  shows "\<exists>v. int_of_char c = Some v \<and> v AND 3 = v \<and> str_int v = [c]"
  using is_code_cases [OF assms]
  by (auto simp: int_of_char_def isdigit_def str_int_def str_nat.simps digit_char_def)

lemma encoded_nth: "encoded s \<Longrightarrow> i < length s \<Longrightarrow> is_code (s ! i)"
  by (simp add: encoded_def list_all_length)

lemma fold_set_from_kmer_packv:
  assumes "\<forall>i < length x. int_of_char (x ! i) \<noteq> None" and "m \<le> length x"
  shows "fold (set_from_kmer_step x) [0..<m] (Inr 0) = Inr (packv x m)"
  using assms(2)
proof (induction m)
  case 0
  then show ?case by simp
next
  case (Suc m)
  then have "m < length x" by simp
  with assms(1) obtain v where "int_of_char (x ! m) = Some v" by auto
  with Suc show ?case
    by (simp add: set_from_kmer_step_def)
qed

lemma bit_three: "bit (3 :: int) b \<longleftrightarrow> b < 2"
proof -
  have "(3 :: int) = mask 2" by (simp add: mask_eq_exp_minus_1)
  then show ?thesis by (simp only: bit_mask_iff) simp
qed

lemma bit_packv:
  "bit (packv x m) q \<longleftrightarrow>
     (\<exists>i < m. 2 * (length x - 1 - i) \<le> q \<and> q - 2 * (length x - 1 - i) < 2 \<and>
        bit (the (int_of_char (x ! i))) (q - 2 * (length x - 1 - i)))"
proof (induction m)
  case 0
  then show ?case by simp
next
  case (Suc m)
  show ?case
    by (auto simp: Suc bit_or_iff bit_push_bit_iff bit_and_iff bit_three less_Suc_eq)
qed

lemma get_2bits_packv:
  assumes "i < length x"
  shows "get_2bits (packv x (length x)) (2 * (length x - 1 - i)) = the (int_of_char (x ! i)) AND 3"
proof (rule bit_eqI)
  fix b
  let ?n = "length x"
  let ?p = "\<lambda>i. 2 * (?n - 1 - i)"
  let ?v = "\<lambda>i. the (int_of_char (x ! i))"
  have "bit (get_2bits (packv x ?n) (?p i)) b \<longleftrightarrow> b < 2 \<and> bit (packv x ?n) (?p i + b)"
    by (auto simp: get_2bits_def bit_and_iff bit_drop_bit_eq bit_three)
  also have "\<dots> \<longleftrightarrow> b < 2 \<and> bit (?v i) b"
  proof (cases "b < 2")
    case False
    then show ?thesis by simp
  next
    case True
    have "bit (packv x ?n) (?p i + b) \<longleftrightarrow> bit (?v i) b"
    proof
      assume "bit (packv x ?n) (?p i + b)"
      then obtain i' where i': "i' < ?n" "?p i' \<le> ?p i + b" "?p i + b - ?p i' < 2"
        "bit (?v i') (?p i + b - ?p i')"
        unfolding bit_packv by blast
      from i'(1-3) assms True have "i' = i" by arith
      with i'(4) show "bit (?v i) b" by simp
    next
      assume "bit (?v i) b"
      with assms True show "bit (packv x ?n) (?p i + b)"
        unfolding bit_packv by (intro exI [of _ i]) simp
    qed
    with True show ?thesis by simp
  qed
  also have "\<dots> \<longleftrightarrow> bit (?v i AND 3) b"
    by (auto simp: bit_and_iff bit_three)
  finally show "bit (get_2bits (packv x ?n) (?p i)) b = bit (?v i AND 3) b" .
qed

lemma get_kmer_packv:
  assumes "encoded s" and "length s \<le> MAX_L"
  shows "get_kmer (packv s (length s)) (length s) = Inr s"
proof -
  have "map (\<lambda>i. str_int (get_2bits (packv s (length s)) (2 * (length s - 1 - i)))) [0..<length s]
        = map (\<lambda>i. [s ! i]) [0..<length s]"
  proof (rule map_cong [OF refl])
    fix i assume "i \<in> set [0..<length s]"
    then have i: "i < length s" by simp
    from is_code_int_of_char [OF encoded_nth [OF assms(1) i]]
    obtain v where "int_of_char (s ! i) = Some v" "v AND 3 = v" "str_int v = [s ! i]" by blast
    with get_2bits_packv [OF i]
    show "str_int (get_2bits (packv s (length s)) (2 * (length s - 1 - i))) = [s ! i]"
      by simp
  qed
  moreover have "concat (map (\<lambda>i. [s ! i]) [0..<length s]) = s"
    by (simp add: concat_map_singleton map_nth)
  ultimately have "concat (map (\<lambda>i. str_int (get_2bits (packv s (length s)) (2 * (length s - 1 - i))))
      [0..<length s]) = s"
    by (simp only:)
  with assms(2) show ?thesis unfolding get_kmer_def by (simp only: not_less [symmetric] if_False)
qed

text \<open>
  Claim C8. For every encoded string \<open>s\<close> (each character one of the alphabet codes 0..3)
  of length at most \<open>MAX_L = 32\<close>, packing \<open>s\<close> with \<^verbatim>\<open>Motif(s)\<close> succeeds and unpacking the
  packed key to the same length gives \<open>s\<close> back: \<^verbatim>\<open>Motif(s).get_kmer(len(s)) == s\<close>.
\<close>

theorem pack_unpack_roundtrip:
  assumes "encoded s" and "length s \<le> MAX_L"
  shows "case set_from_kmer s of Inl e \<Rightarrow> False | Inr data \<Rightarrow> get_kmer data (length s) = Inr s"
proof -
  have "\<forall>i < length s. int_of_char (s ! i) \<noteq> None"
    using is_code_int_of_char [OF encoded_nth [OF assms(1)]] by fastforce
  then have "set_from_kmer s = Inr (packv s (length s))"
    unfolding set_from_kmer_def by (rule fold_set_from_kmer_packv) simp
  then show ?thesis using get_kmer_packv [OF assms] by simp
qed

theorem pack_unpack_roundtrip_witness:
  "encoded ''0123'' \<and> length ''0123'' \<le> MAX_L \<and>
   (case set_from_kmer ''0123'' of Inl e \<Rightarrow> False
    | Inr data \<Rightarrow> get_kmer data (length ''0123'') = Inr ''0123'')"
proof -
  have h1: "encoded ''0123''" by (simp add: encoded_def is_code_def)
  have h2: "length ''0123'' \<le> MAX_L" by (simp add: MAX_L_def)
  show ?thesis using h1 h2 pack_unpack_roundtrip [OF h1 h2] by simp
qed

lemma set_from_kmer_step_wildcard:
  "set_from_kmer_step (s[i := CHR ''4'']) j acc = set_from_kmer_step (s[i := CHR ''0'']) j acc"
proof (cases "i < length s")
  case True
  then show ?thesis
    by (cases "j = i")
       (simp_all add: set_from_kmer_step_def int_of_char_def isdigit_def split: sum.splits)
next
  case False
  then have "length s \<le> i" by simp
  then show ?thesis by (simp add: list_update_beyond)
qed

text \<open>
  Claim C10. \<^verbatim>\<open>set_from_kmer\<close> keeps only \<^verbatim>\<open>char_code & 0b11\<close>, so writing the wildcard code
  \<open>4\<close> at any position of any string packs to the same integer as writing \<open>0\<close> there; the
  one-character strings \<open>4\<close> and \<open>0\<close> pack alike, and packing is not injective.
\<close>

theorem wildcard_packs_as_zero:
  "set_from_kmer (s[i := CHR ''4'']) = set_from_kmer (s[i := CHR ''0''])
   \<and> set_from_kmer ''4'' = set_from_kmer ''0'' \<and> \<not> inj set_from_kmer"
proof -
  have a: "set_from_kmer (s[i := CHR ''4'']) = set_from_kmer (s[i := CHR ''0''])" for s i
    unfolding set_from_kmer_def
    by (simp add: set_from_kmer_step_wildcard [abs_def])
  from a [of "''4''" 0] have b: "set_from_kmer ''4'' = set_from_kmer ''0''" by simp
  have "\<not> inj set_from_kmer"
  proof
    assume "inj set_from_kmer"
    from injD [OF this b] show False by simp
  qed
  with a b show ?thesis by simp
qed

section \<open>Verification: engine V1\<close>

lemma count_candidate_fold:
  assumes "\<forall>m. (map_of (last_seq_match st) m = Some sid) \<longleftrightarrow> m \<in> P"
    and "distinct (map fst (motif_counts st))"
  shows "(\<forall>m. ((map_of (last_seq_match (fold (count_candidate sid) cands st)) m = Some sid)
                  \<longleftrightarrow> m \<in> P \<union> set cands)
            \<and> (m \<notin> P \<union> set cands \<longrightarrow>
                 map_of (last_seq_match (fold (count_candidate sid) cands st)) m
                 = map_of (last_seq_match st) m)
            \<and> dict_get (motif_counts (fold (count_candidate sid) cands st)) m 0
                 = dict_get (motif_counts st) m 0 + (if m \<in> set cands - P then 1 else 0))
         \<and> distinct (map fst (motif_counts (fold (count_candidate sid) cands st)))"
  using assms
proof (induction cands arbitrary: st P)
  case Nil
  then show ?case by simp
next
  case (Cons c cands)
  let ?st1 = "count_candidate sid c st"
  have 1: "\<forall>m. (map_of (last_seq_match ?st1) m = Some sid) \<longleftrightarrow> m \<in> insert c P"
    using Cons.prems(1) by (auto simp: count_candidate_def update_conv')
  have 2: "distinct (map fst (motif_counts ?st1))"
    using Cons.prems(2) by (simp add: count_candidate_def distinct_update)
  have 3: "\<And>m. m \<noteq> c \<Longrightarrow> map_of (last_seq_match ?st1) m = map_of (last_seq_match st) m"
    by (simp add: count_candidate_def update_conv')
  have 4: "\<And>m. dict_get (motif_counts ?st1) m 0
              = dict_get (motif_counts st) m 0 + (if m = c \<and> c \<notin> P then 1 else 0)"
    using Cons.prems(1) by (auto simp: count_candidate_def update_conv' dict_get_def)
  from Cons.IH [OF 1 2] 3 4 show ?case
    by (auto simp: )
qed

lemma Ems1_process_inv:
  assumes "\<forall>m. case map_of (last_seq_match st) m of None \<Rightarrow> True | Some s \<Rightarrow> s \<le> int i"
    and "distinct (map fst (motif_counts st))"
  shows "(\<forall>m. (case map_of (last_seq_match (Ems1_process l d i seq st)) m of
                  None \<Rightarrow> True | Some s \<Rightarrow> s \<le> int (i + 1))
            \<and> dict_get (motif_counts (Ems1_process l d i seq st)) m 0
                 = dict_get (motif_counts st) m 0
                   + (if m \<in> set (sequence_candidates l d seq) then 1 else 0))
         \<and> distinct (map fst (motif_counts (Ems1_process l d i seq st)))"
proof -
  let ?c = "sequence_candidates l d seq"
  let ?st' = "fold (count_candidate (int i + 1)) ?c st"
  have P: "\<forall>m. (map_of (last_seq_match st) m = Some (int i + 1)) \<longleftrightarrow> m \<in> {}"
  proof
    fix m
    from assms(1) have "case map_of (last_seq_match st) m of None \<Rightarrow> True | Some s \<Rightarrow> s \<le> int i"
      by blast
    then show "(map_of (last_seq_match st) m = Some (int i + 1)) \<longleftrightarrow> m \<in> {}"
      by (auto split: option.splits)
  qed
  note F = count_candidate_fold [OF P assms(2), of ?c]
  have "case map_of (last_seq_match ?st') m of None \<Rightarrow> True | Some s \<Rightarrow> s \<le> int (i + 1)" for m
  proof (cases "m \<in> set ?c")
    case True
    with F have "map_of (last_seq_match ?st') m = Some (int i + 1)" by simp
    then show ?thesis by simp
  next
    case False
    with F have "map_of (last_seq_match ?st') m = map_of (last_seq_match st) m" by simp
    moreover from assms(1)
    have "case map_of (last_seq_match st) m of None \<Rightarrow> True | Some s \<Rightarrow> s \<le> int i" by blast
    ultimately show ?thesis by (auto split: option.splits)
  qed
  with F show ?thesis
    by (simp add: Ems1_process_def fold_candidates_def)
qed

lemma Ems1_loop_inv:
  assumes "\<forall>m. case map_of (last_seq_match st) m of None \<Rightarrow> True | Some s \<Rightarrow> s \<le> int i"
    and "distinct (map fst (motif_counts st))"
  shows "(\<forall>m. (case map_of (last_seq_match (Ems1_loop l d i reads st)) m of
                  None \<Rightarrow> True | Some s \<Rightarrow> s \<le> int (i + length reads))
            \<and> dict_get (motif_counts (Ems1_loop l d i reads st)) m 0
                 = dict_get (motif_counts st) m 0
                   + int (length (filter (\<lambda>seq. m \<in> set (sequence_candidates l d seq)) reads)))
         \<and> distinct (map fst (motif_counts (Ems1_loop l d i reads st)))"
  using assms
proof (induction reads arbitrary: i st)
  case Nil
  then show ?case by (simp cong: option.case_cong)
next
  case (Cons seq reads)
  note P = Ems1_process_inv [OF Cons.prems, of l d seq]
  from P have a: "\<forall>m. case map_of (last_seq_match (Ems1_process l d i seq st)) m of
                  None \<Rightarrow> True | Some s \<Rightarrow> s \<le> int (i + 1)" by blast
  from P have b: "distinct (map fst (motif_counts (Ems1_process l d i seq st)))" by blast
  from Cons.IH [OF a b] P show ?case by (simp cong: option.case_cong)
qed

lemma Ems1_loop_append:
  "Ems1_loop l d i (xs @ ys) st = Ems1_loop l d (i + length xs) ys (Ems1_loop l d i xs st)"
  by (induction xs arbitrary: i st) simp_all

text \<open>
  Claim C9. After engine V1 has processed the first \<open>i\<close> sequences (ids 1..i),
  \<^verbatim>\<open>motif_counts.get(m, 0)\<close> is the number of sequences among them whose candidate set holds
  \<open>m\<close>, and \<^verbatim>\<open>last_seq_match[m]\<close>, when present, is at most \<open>i\<close>; the run over all reads
  continues from that state, and its output is the sorted, duplicate-free list of the motifs
  whose count is the number of reads. The lemmas above hold for every order in which the
  candidate set is iterated.
\<close>

theorem Ems1_counting_invariant:
  "dict_get (motif_counts (Ems1_loop l d 0 (take i reads) ems1_init)) m 0
     = int (card {j. j < i \<and> j < length reads \<and> m \<in> set (sequence_candidates l d (reads ! j))})
   \<and> (case map_of (last_seq_match (Ems1_loop l d 0 (take i reads) ems1_init)) m of
        None \<Rightarrow> True | Some s \<Rightarrow> s \<le> int i)
   \<and> Ems1_loop l d 0 reads ems1_init
       = Ems1_loop l d i (drop i reads) (Ems1_loop l d 0 (take i reads) ems1_init)
   \<and> set (Ems1_search l d reads)
       = {m. map_of (motif_counts (Ems1_loop l d 0 reads ems1_init)) m = Some (int (length reads))}
   \<and> sorted (Ems1_search l d reads) \<and> distinct (Ems1_search l d reads)"
proof -
  have init1: "\<forall>m. case map_of (last_seq_match ems1_init) m of None \<Rightarrow> True | Some s \<Rightarrow> s \<le> int 0"
    by (simp add: ems1_init_def)
  have init2: "distinct (map fst (motif_counts ems1_init))"
    by (simp add: ems1_init_def)
  note I = Ems1_loop_inv [OF init1 init2]
  let ?st = "Ems1_loop l d 0 (take i reads) ems1_init"
  have "{j. j < i \<and> j < length reads \<and> m \<in> set (sequence_candidates l d (reads ! j))}
        = {j. j < length (take i reads) \<and> m \<in> set (sequence_candidates l d (take i reads ! j))}"
    by auto
  then have c1: "dict_get (motif_counts ?st) m 0
     = int (card {j. j < i \<and> j < length reads \<and> m \<in> set (sequence_candidates l d (reads ! j))})"
    using I [where l = l and d = d and reads = "take i reads"]
    by (simp add: length_filter_conv_card ems1_init_def dict_get_def)
  have "case map_of (last_seq_match ?st) m of None \<Rightarrow> True | Some s \<Rightarrow> s \<le> int (0 + length (take i reads))"
    using I [where l = l and d = d and reads = "take i reads"] by blast
  then have c2: "case map_of (last_seq_match ?st) m of None \<Rightarrow> True | Some s \<Rightarrow> s \<le> int i"
    by (auto split: option.splits)
  have c3: "Ems1_loop l d 0 reads ems1_init = Ems1_loop l d i (drop i reads) ?st"
  proof (cases "i \<le> length reads")
    case True
    then show ?thesis
      using Ems1_loop_append [of l d 0 "take i reads" "drop i reads" ems1_init] by simp
  next
    case False
    then show ?thesis by simp
  qed
  let ?fin = "Ems1_loop l d 0 reads ems1_init"
  have dist: "distinct (map fst (motif_counts ?fin))"
    using I [where l = l and d = d and reads = reads] by blast
  have c4: "set (Ems1_search l d reads)
       = {m. map_of (motif_counts ?fin) m = Some (int (length reads))}"
    using dist by (auto simp: Ems1_search_def Ems1_output_def image_iff)
  have c5: "sorted (Ems1_search l d reads)"
    by (simp add: Ems1_search_def Ems1_output_def)
  have c6: "distinct (Ems1_search l d reads)"
    using dist by (simp add: Ems1_search_def Ems1_output_def distinct_map_filter)
  from c1 c2 c3 c4 c5 c6 show ?thesis by blast
qed

section \<open>Verification: intersection of simple trees\<close>

lemma has_bit_iff: "has_bit info j \<longleftrightarrow> bit info j"
  by (simp add: has_bit_def bit_iff_and_push_bit_not_eq_0)

lemma str_int_small: "j < 10 \<Longrightarrow> str_int (int j) = [digit_char j]"
  by (simp add: str_int_def str_nat.simps)

lemma digit_char_inj: "i < 4 \<Longrightarrow> j < 4 \<Longrightarrow> digit_char i = digit_char j \<Longrightarrow> i = j"
  by (auto simp: digit_char_def less_Suc_eq numeral_eq_Suc nth_Cons')

lemma domain_size_4: "domain_size = 4"
  by (simp add: domain_size_def DNA_DOMAIN_def)

lemma set_mask_letters:
  "set (mask_letters info) = {digit_char j | j. j < 4 \<and> bit info j}"
proof -
  have "set (mask_letters info)
        = (\<Union>j \<in> {0..<domain_size}. if bit info j then set (str_int (int j)) else {})"
    unfolding mask_letters_def by (auto simp: has_bit_iff split: if_splits)
  also have "\<dots> = (\<Union>j \<in> {0..<domain_size}. if bit info j then {digit_char j} else {})"
    by (rule SUP_cong) (auto simp: domain_size_4 str_int_small)
  also have "\<dots> = {digit_char j | j. j < 4 \<and> bit info j}"
    by (auto simp: domain_size_4 split: if_splits)
  finally show ?thesis .
qed

lemma set_mask_letters_and:
  "set (mask_letters (a AND b)) = set (mask_letters a) \<inter> set (mask_letters b)"
  by (auto simp: set_mask_letters bit_and_iff dest: digit_char_inj)

lemma mask_letters_0: "mask_letters 0 = []"
  by (simp add: mask_letters_def has_bit_def)


lemma set_represented_simple_Suc:
  "set (represented_simple (Suc n) node) = (\<Union>child \<in> set (s_children node). edge_strings n child)"
  by (auto simp: edge_strings_def)

lemma represented_simple_children:
  "represented_simple n (SNode cs m) = represented_simple n (SNode cs m')"
  by (cases n) simp_all

lemma represented_simple_empty: "represented_simple (Suc n) (SNode [] m) = []"
  by simp



lemma edge_strings_Int:
  "edge_strings n a \<inter> edge_strings n b
   = (\<lambda>(c, s). c # s) `
       ((set (mask_letters (s_sharing_info a)) \<inter> set (mask_letters (s_sharing_info b)))
        \<times> (set (represented_simple n a) \<inter> set (represented_simple n b)))"
  by (auto simp: edge_strings_def)

lemma intersect_recursive_simple_sound:
  "depth \<le> md \<Longrightarrow>
   (case intersect_recursive_simple md to_node from_node depth of
      None \<Rightarrow> {} | Some r \<Rightarrow> set (represented_simple (md - depth) r))
   = set (represented_simple (md - depth) to_node)
     \<inter> set (represented_simple (md - depth) from_node)"
proof (induction md to_node from_node depth rule: intersect_recursive_simple.induct)
  case (1 md to_node from_node depth)
  show ?case
  proof (cases "md \<le> depth")
    case True
    with "1.prems" have "md - depth = 0" by simp
    with True show ?thesis
      by (simp add: intersect_recursive_simple.simps [of md to_node from_node depth])
  next
    case False
    define n where "n = md - (depth + 1)"
    with False have md: "md - depth = Suc n" by simp
    show ?thesis
    proof (cases "s_children from_node = []")
      case True
      with False show ?thesis
        by (simp add: intersect_recursive_simple.simps [of md to_node from_node depth] md)
    next
      case nonempty: False
      define f where "f tc fc =
        (let common = s_sharing_info tc AND s_sharing_info fc in
         if common \<noteq> 0 then
           (case intersect_recursive_simple md tc fc (depth + 1) of
              None \<Rightarrow> []
            | Some intersected_child \<Rightarrow> [SNode (s_children intersected_child) common])
         else [])" for tc fc
      define new_children where
        "new_children = concat (map (\<lambda>tc. concat (map (f tc) (s_children from_node)))
                                  (s_children to_node))"
      have res: "intersect_recursive_simple md to_node from_node depth
                 = (if new_children = [] then None else Some (SNode new_children 0))"
        using False nonempty
        by (simp add: intersect_recursive_simple.simps [of md to_node from_node depth]
            new_children_def f_def [abs_def])
      have key: "(\<Union>nc \<in> set (f tc fc). edge_strings n nc) = edge_strings n tc \<inter> edge_strings n fc"
        if tc: "tc \<in> set (s_children to_node)" and fc: "fc \<in> set (s_children from_node)" for tc fc
      proof (cases "s_sharing_info tc AND s_sharing_info fc = 0")
        case True
        then have "set (mask_letters (s_sharing_info tc)) \<inter> set (mask_letters (s_sharing_info fc)) = {}"
          using set_mask_letters_and [of "s_sharing_info tc" "s_sharing_info fc"]
          by (simp add: mask_letters_0)
        with True show ?thesis by (simp add: f_def edge_strings_Int)
      next
        case common: False
        have "depth + 1 \<le> md" using False by simp
        from "1.IH" [OF False nonempty tc fc refl common this]
        have IH: "(case intersect_recursive_simple md tc fc (depth + 1) of
                     None \<Rightarrow> {} | Some r \<Rightarrow> set (represented_simple n r))
                  = set (represented_simple n tc) \<inter> set (represented_simple n fc)"
          unfolding n_def .
        show ?thesis
        proof (cases "intersect_recursive_simple md tc fc (depth + 1)")
          case None
          with IH common show ?thesis by (simp add: f_def edge_strings_Int)
        next
          case (Some ic)
          have "represented_simple n (SNode (s_children ic) (s_sharing_info tc AND s_sharing_info fc))
                = represented_simple n ic"
            using represented_simple_children [of n "s_children ic" _ "s_sharing_info ic"] by simp
          then have "edge_strings n (SNode (s_children ic) (s_sharing_info tc AND s_sharing_info fc))
                = (\<lambda>(c, s). c # s) `
                    ((set (mask_letters (s_sharing_info tc)) \<inter> set (mask_letters (s_sharing_info fc)))
                     \<times> (set (represented_simple n tc) \<inter> set (represented_simple n fc)))"
            using Some IH by (simp add: edge_strings_def set_mask_letters_and)
          then have "edge_strings n (SNode (s_children ic) (s_sharing_info tc AND s_sharing_info fc))
                = edge_strings n tc \<inter> edge_strings n fc"
            by (simp only: edge_strings_Int)
          with Some common show ?thesis by (simp add: f_def)
        qed
      qed
      have "set (represented_simple (Suc n) (SNode new_children 0))
            = (\<Union>tc \<in> set (s_children to_node). \<Union>fc \<in> set (s_children from_node).
                 \<Union>nc \<in> set (f tc fc). edge_strings n nc)"
        unfolding set_represented_simple_Suc by (auto simp: new_children_def)
      also have "\<dots> = (\<Union>tc \<in> set (s_children to_node). \<Union>fc \<in> set (s_children from_node).
                 edge_strings n tc \<inter> edge_strings n fc)"
        using key by simp
      also have "\<dots> = set (represented_simple (Suc n) to_node)
                        \<inter> set (represented_simple (Suc n) from_node)"
        unfolding set_represented_simple_Suc by blast
      finally have AB: "set (represented_simple (Suc n) (SNode new_children 0))
            = set (represented_simple (Suc n) to_node)
              \<inter> set (represented_simple (Suc n) from_node)" .
      show ?thesis
      proof (cases "new_children = []")
        case True
        then have "set (represented_simple (Suc n) (SNode new_children 0)) = {}" by simp
        with AB have "set (represented_simple (Suc n) to_node)
              \<inter> set (represented_simple (Suc n) from_node) = {}" by (simp only:)
        moreover from True have "intersect_recursive_simple md to_node from_node depth = None"
          by (simp add: res)
        ultimately show ?thesis unfolding md by (simp only: option.case)
      next
        case False
        then have "intersect_recursive_simple md to_node from_node depth = Some (SNode new_children 0)"
          by (simp add: res)
        with AB show ?thesis unfolding md by (simp only: option.case)
      qed
    qed
  qed
qed

text \<open>The intersection of two simple trees of the same depth represents the intersection
  of the two represented sets.\<close>

lemma simple_intersect_is_set_intersection:
  assumes "s_max_depth u = s_max_depth t"
  shows "strings_of_stree (intersect_simple t u) = strings_of_stree t \<inter> strings_of_stree u"
proof -
  let ?md = "s_max_depth t"
  note S = intersect_recursive_simple_sound [of 0 ?md "s_root t" "s_root u"]
  show ?thesis
  proof (cases "intersect_recursive_simple ?md (s_root t) (s_root u) 0")
    case None
    then have "?md \<noteq> 0"
      by (auto simp: intersect_recursive_simple.simps [of ?md "s_root t" "s_root u" 0]
          split: if_splits)
    then obtain n where "?md = Suc n" by (cases ?md) auto
    with None S assms show ?thesis
      by (simp add: strings_of_stree_def intersect_simple_def allocate_node_slow_def)
  next
    case (Some r)
    with S assms show ?thesis
      by (simp add: strings_of_stree_def intersect_simple_def)
  qed
qed

section \<open>Verification: early termination\<close>

text \<open>When the test of the root (V2) or of \<^verbatim>\<open>main_array\<close> (V2P) succeeds after a sequence,
  the loop returns at once with no motif, whatever reads are left.\<close>

lemma Ems2_loop_early_stop:
  assumes "Ems2_gen_all (tree_insert tc) l d seq (new_tree tc l) = Inr tmp_tree"
    and "root_children_falsy tc (tree_intersect tc main_tree tmp_tree)"
  shows "Ems2_loop tc l d i (seq # rest) processed main_tree = Inr (processed @ [i], [])"
  using assms by simp

lemma Ems2p_loop_early_stop:
  assumes "Ems2p_gen_all shuffle num_threads l d seq main_array = Inr []"
  shows "Ems2p_loop shuffle num_threads l d i (seq # rest) processed main_array
         = Inr (processed @ [i], [])"
  using assms by simp

section \<open>Verification: the engines at concrete inputs\<close>

lemma Ems2p_gen_all_single_work:
  assumes "Worker_works l d seq = [w]" and "shuffle [w] = [w]"
  shows "Ems2p_gen_all shuffle nt l d seq main = Ems2p_gen_all (\<lambda>ws. ws) nt l d seq main"
  by (simp add: Ems2p_gen_all_def assms)

lemma Ems2p_loop_single_work:
  assumes "\<And>seq. seq \<in> set reads \<Longrightarrow> Worker_works l d seq = [w] \<and> shuffle [w] = [w]"
  shows "Ems2p_loop shuffle nt l d i reads processed main
         = Ems2p_loop (\<lambda>ws. ws) nt l d i reads processed main"
  using assms
proof (induction reads arbitrary: i processed main)
  case Nil
  then show ?case by simp
next
  case (Cons seq reads)
  have g: "Ems2p_gen_all shuffle nt l d seq main = Ems2p_gen_all (\<lambda>ws. ws) nt l d seq main"
    using Cons.prems [of seq] by (intro Ems2p_gen_all_single_work [where w = w]) simp_all
  have "\<And>i processed main. Ems2p_loop shuffle nt l d i reads processed main
         = Ems2p_loop (\<lambda>ws. ws) nt l d i reads processed main"
    using Cons.prems by (intro Cons.IH) auto
  then show ?case by (auto simp: g split: sum.splits)
qed

text \<open>
  Claim C1 (the four engines give the same sorted motif list) at the input with the single
  read \<open>A\<close>, encoded \<open>0\<close>, with \<open>l = 1\<close>, \<open>d = 1\<close> and one worker. The work list of V2P has
  the single pair \<open>(0, 1)\<close>, which every permutation leaves in place. V1 returns
  \<open>1, 2, 3\<close>, V2 and V2m return \<open>0, 1, 2, 3\<close>, V2P returns \<open>0\<close>.
\<close>

theorem engines_disagree:
  assumes "shuffle [(0, 1)] = [(0, 1)]"
  shows "Ems1_search 1 1 [''0''] = [''1'', ''2'', ''3'']
       \<and> Ems2_search TreeFast 1 1 [''0''] = Inr ([0], [''0'', ''1'', ''2'', ''3''])
       \<and> Ems2_search TreeSimple 1 1 [''0''] = Inr ([0], [''0'', ''1'', ''2'', ''3''])
       \<and> Ems2p_search shuffle 1 1 1 [''0''] = Inr ([0], [''0''])"
proof -
  have v1: "Ems1_search 1 1 [''0''] = [''1'', ''2'', ''3'']" by code_simp
  have v2: "Ems2_search TreeFast 1 1 [''0''] = Inr ([0], [''0'', ''1'', ''2'', ''3''])"
    by code_simp
  have v2m: "Ems2_search TreeSimple 1 1 [''0''] = Inr ([0], [''0'', ''1'', ''2'', ''3''])"
    by code_simp
  have w: "Worker_works 1 1 ''0'' = [(0, 1)]" by code_simp
  have "Ems2p_search shuffle 1 1 1 [''0''] = Ems2p_search (\<lambda>ws. ws) 1 1 1 [''0'']"
    unfolding Ems2p_search_def
    by (rule Ems2p_loop_single_work [where w = "(0, 1)"]) (use w assms in auto)
  also have "\<dots> = Inr ([0], [''0''])" by code_simp
  finally show ?thesis using v1 v2 v2m by simp
qed

theorem engines_disagree_witness:
  "(\<lambda>ws. ws) [(0 :: nat, 1 :: nat)] = [(0, 1)]
   \<and> Ems1_search 1 1 [''0''] = [''1'', ''2'', ''3'']
   \<and> Ems2p_search (\<lambda>ws. ws) 1 1 1 [''0''] = Inr ([0], [''0''])"
  using engines_disagree [of "\<lambda>ws. ws"] by simp

text \<open>
  Claim C2 (every enumerator emits exactly the strings of length \<open>l\<close> within edit distance
  \<open>d\<close>) at \<open>x = 0\<close>, \<open>l = 1\<close>, \<open>d = 1\<close> for V1 and at \<open>x = 01\<close>, \<open>l = 1\<close>, \<open>d = 1\<close> for V2P.
  V1 adds \<open>3\<close>, \<open>2\<close> and \<open>1\<close> to the empty set and not \<open>0\<close>, which is at distance 0. The
  generator of V2P appends the key 1 only and leaves \<open>0001\<close> in \<^verbatim>\<open>self.x\<close>; the string
  \<open>0\<close>, of key 0, is at distance 1 of \<open>01\<close>.
\<close>

theorem neighborhood_misses_strings:
  "generate_neighborhood ''0'' 1 1 [] = [''3'', ''2'', ''1'']
   \<and> length ''0'' = 1 \<and> edist ''0'' ''0'' = 0
   \<and> (case Nbd_generate 1 1 (NbdGenerator [] [] ''01'') of
         Inl e \<Rightarrow> False | Inr st \<Rightarrow> curr_array st = [1] \<and> nbd_x st = ''0001'')
   \<and> set_from_kmer ''0'' = Inr 0 \<and> edist ''01'' ''0'' = 1"
  by code_simp

text \<open>
  Claim C3 (V2P emits one packed key per concrete letter of every wildcard) at \<open>x = 0\<close>,
  \<open>l = 1\<close>, \<open>d = 1\<close>: the substitution writes the wildcard code, and the generator appends
  the single key 0 with the auxiliary bit set, while \<^verbatim>\<open>expanded_count\<close> is 4.
\<close>

theorem V2P_wildcard_not_expanded:
  "(case Nbd_generate 1 1 (NbdGenerator [] [] ''0'') of
      Inl e \<Rightarrow> False
    | Inr st \<Rightarrow> curr_array st = [0] \<and> curr_aux_array st = [1] \<and> expanded_count st = 4)"
  by code_simp

text \<open>
  Claim C4 (after a sequence of index at least 1, \<^verbatim>\<open>main_array\<close> is the old array
  intersected with the candidates of the sequence, empty when the intersection is) at
  \<open>l = 1\<close>, \<open>d = 0\<close>, one worker, \<^verbatim>\<open>main_array = [0]\<close> and the sequence \<open>1\<close>. The only
  shard has the candidates \<open>[1]\<close> and returns the empty intersection, and \<^verbatim>\<open>_gen_all\<close>
  leaves \<^verbatim>\<open>main_array = [0]\<close>; the run over the reads \<open>0\<close> and \<open>1\<close> returns the motif \<open>0\<close>.
\<close>

theorem V2P_empty_intersection_keeps_main_array:
  assumes "shuffle [(0, 1)] = [(0, 1)]"
  shows "process_segment 1 0 ''1'' [] [(0, 1)] 0 1 = Inr [1]
       \<and> process_segment 1 0 ''1'' [0] [(0, 1)] 0 1 = Inr []
       \<and> Ems2p_gen_all shuffle 1 1 0 ''1'' [0] = Inr [0]
       \<and> Ems2p_search shuffle 1 1 0 [''0'', ''1''] = Inr ([0, 1], [''0''])"
proof -
  have a: "process_segment 1 0 ''1'' [] [(0, 1)] 0 1 = Inr [1]" by code_simp
  have b: "process_segment 1 0 ''1'' [0] [(0, 1)] 0 1 = Inr []" by code_simp
  have w0: "Worker_works 1 0 ''0'' = [(0, 1)]" by code_simp
  have w1: "Worker_works 1 0 ''1'' = [(0, 1)]" by code_simp
  have "Ems2p_gen_all shuffle 1 1 0 ''1'' [0] = Ems2p_gen_all (\<lambda>ws. ws) 1 1 0 ''1'' [0]"
    by (rule Ems2p_gen_all_single_work [where shuffle = shuffle, OF w1 assms])
  also have "\<dots> = Inr [0]" by code_simp
  finally have c: "Ems2p_gen_all shuffle 1 1 0 ''1'' [0] = Inr [0]" .
  have "Ems2p_search shuffle 1 1 0 [''0'', ''1''] = Ems2p_search (\<lambda>ws. ws) 1 1 0 [''0'', ''1'']"
    unfolding Ems2p_search_def
    by (rule Ems2p_loop_single_work [where w = "(0, 1)"]) (use w0 w1 assms in auto)
  also have "\<dots> = Inr ([0, 1], [''0''])" by code_simp
  finally show ?thesis using a b c by simp
qed

theorem V2P_empty_intersection_keeps_main_array_witness:
  "(\<lambda>ws. ws) [(0 :: nat, 1 :: nat)] = [(0, 1)]
   \<and> Ems2p_gen_all (\<lambda>ws. ws) 1 1 0 ''1'' [0] = Inr [0]"
  using V2P_empty_intersection_keeps_main_array [of "\<lambda>ws. ws"] by simp

text \<open>
  Claim C5 (an engine whose running candidate set becomes empty processes no further
  sequence) at \<open>l = 1\<close>, \<open>d = 0\<close> and the reads \<open>0\<close>, \<open>1\<close>, \<open>2\<close>. With the fast tree the root
  after the intersection for sequence 1 has no child and the tree holds no motif, yet the
  list tested by \<^verbatim>\<open>not root['children']\<close> has four entries, and sequence 2 is processed.
  With the simple tree the engine stops after sequence 1.
\<close>

theorem Fast_engine_never_stops_early:
  "Ems2_search TreeFast 1 0 [''0'', ''1'', ''2''] = Inr ([0, 1, 2], [])
   \<and> Ems2_search TreeSimple 1 0 [''0'', ''1'', ''2''] = Inr ([0, 1], [])
   \<and> (case Ems2_gen_all insert_fast 1 0 ''0'' (MotifTreeFast 1) of
         Inl e \<Rightarrow> False
       | Inr main_tree \<Rightarrow>
           (case Ems2_gen_all insert_fast 1 0 ''1'' (MotifTreeFast 1) of
              Inl e \<Rightarrow> False
            | Inr tmp_tree \<Rightarrow>
                empty_node (f_heap (intersect_fast main_tree tmp_tree)
                              ! f_root (intersect_fast main_tree tmp_tree))
                \<and> \<not> root_children_falsy_fast (intersect_fast main_tree tmp_tree)
                \<and> traverse_fast (intersect_fast main_tree tmp_tree) = []))"
  by code_simp

text \<open>
  Claim C6 (\<^verbatim>\<open>insert\<close> adds the concretizations of the motif to the represented set) for
  both trees. Fast tree of depth 2: after \<open>40\<close> the tree holds \<open>00, 10, 20, 30\<close>; inserting
  \<open>01\<close> splits the shared child into a fresh, empty node for the letter 0, and the tree
  holds \<open>01, 10, 20, 30\<close>: \<open>00\<close> is gone. Simple tree of depth 1: after \<open>0\<close>, inserting the
  wildcard \<open>4\<close> enters the child of \<open>0\<close> and adds no child: the tree still holds \<open>0\<close> only.
  Simple tree of depth 2: after \<open>40\<close>, inserting \<open>01\<close> enters the child of the wildcard,
  and the tree holds eight strings.
\<close>

theorem insert_is_not_union:
  "(case insert_fast ''40'' (MotifTreeFast 2) of
      Inl e \<Rightarrow> False
    | Inr t1 \<Rightarrow>
        represented_fast (f_heap t1) 2 (f_root t1) = [''00'', ''10'', ''20'', ''30'']
        \<and> traverse_fast t1 = [''00'', ''10'', ''20'', ''30'']
        \<and> (case insert_fast ''01'' t1 of
              Inl e \<Rightarrow> False
            | Inr t2 \<Rightarrow>
                represented_fast (f_heap t2) 2 (f_root t2) = [''01'', ''10'', ''20'', ''30'']
                \<and> traverse_fast t2 = [''01'', ''10'', ''20'', ''30'']))
   \<and> concretizations ''01'' = [''01'']
   \<and> (case insert_simple ''0'' (MotifTreeSimple 1) of
         Inl e \<Rightarrow> False
       | Inr s1 \<Rightarrow>
           represented_simple 1 (s_root s1) = [''0'']
           \<and> (case insert_simple ''4'' s1 of
                 Inl e \<Rightarrow> False
               | Inr s2 \<Rightarrow> represented_simple 1 (s_root s2) = [''0'']
                            \<and> traverse_simple s2 = [''0'']))
   \<and> concretizations ''4'' = [''0'', ''1'', ''2'', ''3'']
   \<and> (case foldM insert_simple [''40'', ''01''] (MotifTreeSimple 2) of
         Inl e \<Rightarrow> False
       | Inr s3 \<Rightarrow> represented_simple 2 (s_root s3)
                    = [''00'', ''01'', ''10'', ''11'', ''20'', ''21'', ''30'', ''31''])"
  by code_simp

text \<open>
  Claim C7 (\<^verbatim>\<open>T.intersect(U)\<close> leaves in \<open>T\<close> the intersection of the two represented sets)
  for the fast tree of depth 1, \<open>T\<close> built by inserting the wildcard \<open>4\<close> and \<open>U\<close> by
  inserting \<open>0\<close> and \<open>1\<close>. \<open>T\<close> holds \<open>0, 1, 2, 3\<close> and \<open>U\<close> holds \<open>0, 1\<close>; the result holds
  \<open>0\<close> only: at slot 0 the shared leaf of \<open>T\<close> is returned and its mask overwritten by 1,
  so slot 1 finds no common letter. The engine with the fast tree therefore returns \<open>0\<close>
  for the reads \<open>0\<close> and \<open>01\<close> with \<open>l = 1\<close>, \<open>d = 1\<close>, the one with the simple tree
  \<open>0, 1, 2, 3\<close>.
\<close>

theorem Fast_intersect_loses_strings:
  "(case insert_fast ''4'' (MotifTreeFast 1) of
      Inl e \<Rightarrow> False
    | Inr t \<Rightarrow>
        (case foldM insert_fast [''0'', ''1''] (MotifTreeFast 1) of
           Inl e \<Rightarrow> False
         | Inr u \<Rightarrow>
             represented_fast (f_heap t) 1 (f_root t) = [''0'', ''1'', ''2'', ''3'']
             \<and> represented_fast (f_heap u) 1 (f_root u) = [''0'', ''1'']
             \<and> represented_fast (f_heap (intersect_fast t u)) 1 (f_root (intersect_fast t u))
                 = [''0'']
             \<and> traverse_fast (intersect_fast t u) = [''0'']))
   \<and> Ems2_search TreeFast 1 1 [''0'', ''01''] = Inr ([0, 1], [''0''])
   \<and> Ems2_search TreeSimple 1 1 [''0'', ''01''] = Inr ([0, 1], [''0'', ''1'', ''2'', ''3''])"
  by code_simp

end
